theory Spec2Isabelle
  imports Main "HOL-Library.Word"
begin

section \<open>The native background module (PLXBackground)\<close>

text \<open>
  The Objective-C module keeps three dictionaries and one flag as instance variables:
  \<open>pendingTimers\<close> (timer identifier to dispatch block), \<open>pendingBackgroundTasks\<close>
  (task name to the numeric identifier granted by UIApplication), \<open>executingTasks\<close>
  (task name to the delivered BGProcessingTask) and \<open>hasListeners\<close>, which the event
  emitter switches through \<open>startObserving\<close> and \<open>stopObserving\<close>.

  The operating system is modelled by what the module does to it: the blocks handed to
  \<open>dispatch_after\<close> that have neither run nor been cancelled (\<open>mainQueue\<close>), a counter
  naming the blocks, a millisecond clock, and the ordered list of calls the module makes
  outwards (\<open>osCalls\<close>). The last three fields belong to the TypeScript wrapper module
  (Background.ts): its timer counter, its table of registered processing callbacks and the
  listeners it added to the event emitter.
\<close>

datatype BGProcessingTask = BGProcessingTask (taskIdentifier: string) (taskInstance: nat)

datatype dispatched = Dispatched (handle: nat) (due: nat) (timeoutIdOf: string)

datatype os_call =
    Resolve string
  | EndBackgroundTask nat
  | SetExpirationHandler BGProcessingTask
  | SetTaskCompletedWithSuccess BGProcessingTask bool
  | SendEvent string string

record world =
  pendingTimers :: "string \<rightharpoonup> nat"
  pendingBackgroundTasks :: "string \<rightharpoonup> nat"
  executingTasks :: "string \<rightharpoonup> BGProcessingTask"
  hasListeners :: bool
  mainQueue :: "dispatched list"
  nextBlock :: nat
  now :: nat
  osCalls :: "os_call list"
  nextTimeoutId :: nat
  registeredCallbacks :: "string \<rightharpoonup> nat \<times> nat"
  emitterListeners :: "(string \<times> nat) list"

definition BackgroundTaskExpiredEvent :: string where
  "BackgroundTaskExpiredEvent = ''BackgroundTaskExpired''"

definition BackgroundProcessingExecutingEvent :: string where
  "BackgroundProcessingExecutingEvent = ''BackgroundProcessingExecuting''"

definition BackgroundProcessingExpiredEvent :: string where
  "BackgroundProcessingExpiredEvent = ''BackgroundProcessingExpired''"

text \<open>The state built by \<open>init\<close>, with nothing queued and the clock at zero.\<close>

definition init :: world where
  "init = \<lparr> pendingTimers = Map.empty, pendingBackgroundTasks = Map.empty,
            executingTasks = Map.empty, hasListeners = False, mainQueue = [],
            nextBlock = 0, now = 0, osCalls = [], nextTimeoutId = 0,
            registeredCallbacks = Map.empty, emitterListeners = [] \<rparr>"

definition startObserving :: "world \<Rightarrow> world" where
  "startObserving w = w\<lparr>hasListeners := True\<rparr>"

definition stopObserving :: "world \<Rightarrow> world" where
  "stopObserving w = w\<lparr>hasListeners := False\<rparr>"

subsection \<open>Timers\<close>

text \<open>
  \<open>setTimeout\<close> creates a block, schedules it on the main queue after the delay and stores
  it under the identifier with \<open>setValue:forKey:\<close>, which replaces an entry already
  there. Nothing is looked up and nothing is cancelled first.
\<close>

definition setTimeout :: "nat \<Rightarrow> string \<Rightarrow> world \<Rightarrow> world" where
  "setTimeout timeout timeoutId w =
     w\<lparr> mainQueue := mainQueue w @ [Dispatched (nextBlock w) (now w + timeout) timeoutId],
        nextBlock := nextBlock w + 1,
        pendingTimers := (pendingTimers w)(timeoutId \<mapsto> nextBlock w) \<rparr>"

text \<open>
  \<open>clearTimeout\<close> cancels the block found under the identifier and removes the entry;
  a cancelled block never runs, so it leaves the queue.
\<close>

definition clearTimeout :: "string \<Rightarrow> world \<Rightarrow> world" where
  "clearTimeout timeoutId w =
     (case pendingTimers w timeoutId of
        None \<Rightarrow> w
      | Some block \<Rightarrow>
          w\<lparr> mainQueue := filter (\<lambda>d. handle d \<noteq> block) (mainQueue w),
             pendingTimers := (pendingTimers w)(timeoutId := None) \<rparr>)"

text \<open>
  The body of the block, run by the main queue when the block is due: it removes the entry
  stored under its identifier and resolves the promise with the identifier. A block that is
  not queued (already run, or cancelled) does nothing.
\<close>

definition runBlock :: "nat \<Rightarrow> world \<Rightarrow> world" where
  "runBlock block w =
     (case find (\<lambda>d. handle d = block) (mainQueue w) of
        None \<Rightarrow> w
      | Some d \<Rightarrow>
          w\<lparr> mainQueue := filter (\<lambda>d'. handle d' \<noteq> block) (mainQueue w),
             pendingTimers := (pendingTimers w)(timeoutIdOf d := None),
             osCalls := osCalls w @ [Resolve (timeoutIdOf d)] \<rparr>)"

text \<open>The timers of one identifier that are still to fire.\<close>

definition liveTimers :: "string \<Rightarrow> world \<Rightarrow> dispatched list" where
  "liveTimers timeoutId w = filter (\<lambda>d. timeoutIdOf d = timeoutId) (mainQueue w)"

datatype timer_step = Start nat string | Cancel string | Fire nat

fun timerStep :: "timer_step \<Rightarrow> world \<Rightarrow> world" where
  "timerStep (Start timeout timeoutId) w = setTimeout timeout timeoutId w"
| "timerStep (Cancel timeoutId) w = clearTimeout timeoutId w"
| "timerStep (Fire block) w = runBlock block w"

fun runTimerSteps :: "timer_step list \<Rightarrow> world \<Rightarrow> world" where
  "runTimerSteps [] w = w"
| "runTimerSteps (s # ss) w = runTimerSteps ss (timerStep s w)"

text \<open>
  The discipline of the TypeScript wrapper, which numbers its timers with a counter: a timer
  is only started under an identifier that has no timer still to fire.
\<close>

fun startsUnused :: "timer_step list \<Rightarrow> world \<Rightarrow> bool" where
  "startsUnused [] w = True"
| "startsUnused (Start timeout timeoutId # ss) w =
     (liveTimers timeoutId w = [] \<and> startsUnused ss (timerStep (Start timeout timeoutId) w))"
| "startsUnused (s # ss) w = startsUnused ss (timerStep s w)"

subsection \<open>Background tasks\<close>

text \<open>
  \<open>UIBackgroundTaskInvalid\<close> is the UIKit constant returned when no background window is
  granted. The identifier returned by \<open>beginBackgroundTaskWithName:expirationHandler:\<close> is a
  parameter of \<open>startBackgroundTask\<close>; the result is the promise's rejection message or the
  resolved task name.
\<close>

definition UIBackgroundTaskInvalid :: nat where
  "UIBackgroundTaskInvalid = 0"

definition startBackgroundTask :: "string \<Rightarrow> nat \<Rightarrow> world \<Rightarrow> (string + string) \<times> world" where
  "startBackgroundTask taskName osIdentifier w =
     (if osIdentifier = UIBackgroundTaskInvalid
      then (Inl (''Cannot start background task with id: '' @ taskName), w)
      else (Inr taskName,
            w\<lparr>pendingBackgroundTasks := (pendingBackgroundTasks w)(taskName \<mapsto> osIdentifier)\<rparr>))"

text \<open>The expiration handler registered by \<open>startBackgroundTask\<close> for its task name.\<close>

definition backgroundTaskExpired :: "string \<Rightarrow> world \<Rightarrow> world" where
  "backgroundTaskExpired taskName w =
     (case pendingBackgroundTasks w taskName of
        None \<Rightarrow> w
      | Some taskId \<Rightarrow>
          if hasListeners w
          then w\<lparr>osCalls := osCalls w @ [SendEvent BackgroundTaskExpiredEvent taskName]\<rparr>
          else w\<lparr> osCalls := osCalls w @ [EndBackgroundTask taskId],
                  pendingBackgroundTasks := (pendingBackgroundTasks w)(taskName := None) \<rparr>)"

definition endBackgroundTask :: "string \<Rightarrow> world \<Rightarrow> world" where
  "endBackgroundTask taskName w =
     (case pendingBackgroundTasks w taskName of
        None \<Rightarrow> w
      | Some taskId \<Rightarrow>
          w\<lparr> osCalls := osCalls w @ [EndBackgroundTask taskId],
             pendingBackgroundTasks := (pendingBackgroundTasks w)(taskName := None) \<rparr>)"

subsection \<open>Processing tasks\<close>

definition backgroundTaskExecuting :: "BGProcessingTask \<Rightarrow> world \<Rightarrow> world" where
  "backgroundTaskExecuting task w =
     (if hasListeners w
      then w\<lparr> osCalls := osCalls w @
                 [SetExpirationHandler task,
                  SendEvent BackgroundProcessingExecutingEvent (taskIdentifier task)],
              executingTasks := (executingTasks w)(taskIdentifier task \<mapsto> task) \<rparr>
      else w\<lparr>osCalls := osCalls w @ [SetTaskCompletedWithSuccess task True]\<rparr>)"

text \<open>The expiration handler that \<open>backgroundTaskExecuting\<close> attaches to the task.\<close>

definition processingTaskExpired :: "string \<Rightarrow> world \<Rightarrow> world" where
  "processingTaskExpired ident w =
     (if hasListeners w
      then w\<lparr>osCalls := osCalls w @ [SendEvent BackgroundProcessingExpiredEvent ident]\<rparr>
      else (case executingTasks w ident of
              None \<Rightarrow> w
            | Some task \<Rightarrow>
                w\<lparr> executingTasks := (executingTasks w)(ident := None),
                   osCalls := osCalls w @ [SetTaskCompletedWithSuccess task True] \<rparr>))"

definition completeBackgroundProcessing :: "string \<Rightarrow> bool \<Rightarrow> world \<Rightarrow> world" where
  "completeBackgroundProcessing taskName result w =
     (case executingTasks w taskName of
        None \<Rightarrow> w
      | Some task \<Rightarrow>
          w\<lparr> executingTasks := (executingTasks w)(taskName := None),
             osCalls := osCalls w @ [SetTaskCompletedWithSuccess task result] \<rparr>)"

section \<open>The TypeScript wrapper of the module (Background.ts)\<close>

text \<open>
  A JavaScript promise is pending until it is settled once; settling it again has no effect.
  Errors are the \<open>Error\<close> objects the code constructs itself, with their message, and
  the errors reported by the BLE library, with their code.
\<close>

datatype error = Error string | BleError nat

datatype 'a promise = Pending | Resolved 'a | Rejected error

definition resolve :: "'a \<Rightarrow> 'a promise \<Rightarrow> 'a promise" where
  "resolve v p = (case p of Pending \<Rightarrow> Resolved v | _ \<Rightarrow> p)"

definition reject :: "error \<Rightarrow> 'a promise \<Rightarrow> 'a promise" where
  "reject e p = (case p of Pending \<Rightarrow> Rejected e | _ \<Rightarrow> p)"

text \<open>\<open>Number.prototype.toString\<close> on a non-negative integer: its decimal digits.\<close>

fun toString :: "nat \<Rightarrow> string" where
  "toString n =
     (if n < 10 then [''0123456789'' ! n]
      else toString (n div 10) @ [''0123456789'' ! (n mod 10)])"

declare toString.simps [simp del]

text \<open>
  \<open>Background.setTimeout\<close> takes the next number of the counter as the timer's identifier,
  starts the native timer under its decimal string and returns the number; the callback runs
  when the native promise resolves. \<open>Background.clearTimeout\<close> clears the native timer.
\<close>

definition Background_setTimeout :: "nat \<Rightarrow> world \<Rightarrow> nat \<times> world" where
  "Background_setTimeout timeout w =
     (let timeoutId = nextTimeoutId w
      in (timeoutId, setTimeout timeout (toString timeoutId) (w\<lparr>nextTimeoutId := timeoutId + 1\<rparr>)))"

definition Background_clearTimeout :: "nat \<Rightarrow> world \<Rightarrow> world" where
  "Background_clearTimeout timeoutId w = clearTimeout (toString timeoutId) w"

text \<open>
  The main queue reaches a block: the clock stands at the block's due time (or later) and
  the block runs.
\<close>

definition fireTimer :: "nat \<Rightarrow> world \<Rightarrow> world" where
  "fireTimer block w =
     (case find (\<lambda>d. handle d = block) (mainQueue w) of
        None \<Rightarrow> w
      | Some d \<Rightarrow> runBlock block (w\<lparr>now := max (now w) (due d)\<rparr>))"

definition removeListener :: "string \<Rightarrow> nat \<Rightarrow> world \<Rightarrow> world" where
  "removeListener eventName listener w =
     w\<lparr>emitterListeners := filter (\<lambda>l. l \<noteq> (eventName, listener)) (emitterListeners w)\<rparr>"

definition completeBackgroundProcessingTask :: "string \<Rightarrow> bool \<Rightarrow> world \<Rightarrow> world" where
  "completeBackgroundProcessingTask taskName result w =
     completeBackgroundProcessing taskName result
       (case registeredCallbacks w taskName of
          None \<Rightarrow> w
        | Some (execution, expired) \<Rightarrow>
            (removeListener BackgroundProcessingExpiredEvent expired
              (removeListener BackgroundProcessingExecutingEvent execution w))
              \<lparr>registeredCallbacks := (registeredCallbacks w)(taskName := None)\<rparr>)"

section \<open>The scheduled processing job (BleManager.ts)\<close>

text \<open>
  The two callbacks that \<open>scheduleBackgroundProcessingTask\<close> registers. The execution
  callback starts the asynchronous connect, download and disconnect sequence; \<open>work\<close> is
  the state that sequence's promise reaches. The \<open>then\<close> handler and the \<open>catch\<close>
  handler both complete the task, and nothing happens while the promise is pending.
\<close>

definition taskExecutionCallback :: "string \<Rightarrow> unit promise \<Rightarrow> world \<Rightarrow> world" where
  "taskExecutionCallback taskName work w =
     (case work of
        Pending \<Rightarrow> w
      | Resolved u \<Rightarrow> completeBackgroundProcessingTask taskName True w
      | Rejected e \<Rightarrow> completeBackgroundProcessingTask taskName True w)"

definition taskExpiredCallback :: "string \<Rightarrow> world \<Rightarrow> world" where
  "taskExpiredCallback taskName w = completeBackgroundProcessingTask taskName False w"

section \<open>The tick protocol (BleManager.ts)\<close>

type_synonym byte = "8 word"

definition serviceUUID :: string where
  "serviceUUID = ''00001000-3a53-9db1-0643-2a72eaff78b2''"

definition txUUID :: string where
  "txUUID = ''00001001-3a53-9db1-0643-2a72eaff78b2''"

definition rxUUID :: string where
  "rxUUID = ''00001002-3a53-9db1-0643-2a72eaff78b2''"

text \<open>
  What the protocol asks of the device, in order. The payload of a write is the byte array
  before its Base64 encoding, and a notified value is the byte array after decoding.
  The monitor callback receives an error, or a characteristic whose value may be missing.
\<close>

datatype device_call =
    MonitorCharacteristicForService string string
  | SubscriptionRemove
  | WriteCharacteristicWithoutResponseForService string string "byte list"

datatype monitor_event = MonitorError error | Characteristic "byte list option"

text \<open>
  The library calls the monitor callback while the subscription exists: from the call that
  created it until \<open>remove\<close> is called on it.
\<close>

definition monitoring :: "device_call list \<Rightarrow> bool" where
  "monitoring calls \<longleftrightarrow>
     MonitorCharacteristicForService serviceUUID rxUUID \<in> set calls \<and>
     SubscriptionRemove \<notin> set calls"

text \<open>
  \<open>DataView.getUint32(0, true)\<close>: the first four bytes, least significant first. On a
  buffer shorter than four bytes it throws a RangeError (\<open>None\<close>), which ends the callback.
\<close>

fun getUint32 :: "byte list \<Rightarrow> nat option" where
  "getUint32 (b0 # b1 # b2 # b3 # rest) =
     Some (unat b0 + 256 * unat b1 + 65536 * unat b2 + 16777216 * unat b3)"
| "getUint32 bytes = None"

subsection \<open>Bounded download\<close>

text \<open>
  The state of one \<open>downloadTicks\<close> call: the counter, the promise, the calls made to
  \<open>onTick\<close> (received count, total count, value) and the calls made on the device.
  Tick counts are JavaScript numbers holding integers.
\<close>

record download =
  receivedTicks :: int
  downloadPromise :: "int promise"
  onTickCalls :: "(int \<times> int \<times> nat) list"
  downloadCalls :: "device_call list"

text \<open>
  The promise's executor: the check of the argument, the subscription, then the write of the
  one-byte request (a \<open>Uint8Array\<close> element keeps the number modulo 256).
\<close>

definition downloadTicks :: "int \<Rightarrow> download" where
  "downloadTicks totalTicks =
     (if totalTicks \<le> 0 \<or> totalTicks \<ge> 256
      then \<lparr> receivedTicks = 0,
             downloadPromise = Rejected (Error ''Total ticks number should be > 0 and < 256''),
             onTickCalls = [], downloadCalls = [] \<rparr>
      else \<lparr> receivedTicks = 0, downloadPromise = Pending, onTickCalls = [],
             downloadCalls =
               [MonitorCharacteristicForService serviceUUID rxUUID,
                WriteCharacteristicWithoutResponseForService serviceUUID txUUID
                  [word_of_int totalTicks]] \<rparr>)"

definition downloadMonitorCallback :: "int \<Rightarrow> monitor_event \<Rightarrow> download \<Rightarrow> download" where
  "downloadMonitorCallback totalTicks event st =
     (case event of
        MonitorError e \<Rightarrow> st\<lparr>downloadPromise := reject e (downloadPromise st)\<rparr>
      | Characteristic None \<Rightarrow> st
      | Characteristic (Some bytes) \<Rightarrow>
          (case getUint32 bytes of
             None \<Rightarrow> st
           | Some ticks \<Rightarrow>
               let st1 = st\<lparr> receivedTicks := receivedTicks st + 1,
                             onTickCalls := onTickCalls st @
                               [(receivedTicks st + 1, totalTicks, ticks)] \<rparr>
               in if receivedTicks st1 = totalTicks
                  then st1\<lparr> downloadCalls := downloadCalls st1 @ [SubscriptionRemove],
                            downloadPromise := resolve totalTicks (downloadPromise st1) \<rparr>
                  else st1))"

definition downloadWriteFailed :: "error \<Rightarrow> download \<Rightarrow> download" where
  "downloadWriteFailed e st =
     st\<lparr> downloadCalls := downloadCalls st @ [SubscriptionRemove],
         downloadPromise := reject e (downloadPromise st) \<rparr>"

text \<open>
  What happens to a download after its executor has run: a notification (delivered only while
  the subscription exists), or the outcome of the write.
\<close>

datatype download_event = Notification monitor_event | WriteResolved | WriteRejected error

definition downloadStep :: "int \<Rightarrow> download_event \<Rightarrow> download \<Rightarrow> download" where
  "downloadStep totalTicks event st =
     (case event of
        Notification m \<Rightarrow>
          if monitoring (downloadCalls st) then downloadMonitorCallback totalTicks m st else st
      | WriteResolved \<Rightarrow> st
      | WriteRejected e \<Rightarrow> downloadWriteFailed e st)"

fun downloadSteps :: "int \<Rightarrow> download_event list \<Rightarrow> download \<Rightarrow> download" where
  "downloadSteps totalTicks [] st = st"
| "downloadSteps totalTicks (event # events) st =
     downloadSteps totalTicks events (downloadStep totalTicks event st)"

text \<open>
  A whole download. When the executor rejects the argument it returns before subscribing and
  writing, so no event can follow.
\<close>

definition downloadRun :: "int \<Rightarrow> download_event list \<Rightarrow> download" where
  "downloadRun totalTicks events =
     (if downloadCalls (downloadTicks totalTicks) = [] then downloadTicks totalTicks
      else downloadSteps totalTicks events (downloadTicks totalTicks))"

text \<open>The values carried by the well-formed notifications of an event list, in order.\<close>

fun notifiedTicks :: "download_event list \<Rightarrow> nat list" where
  "notifiedTicks [] = []"
| "notifiedTicks (Notification (Characteristic (Some bytes)) # events) =
     (case getUint32 bytes of
        None \<Rightarrow> notifiedTicks events
      | Some ticks \<Rightarrow> ticks # notifiedTicks events)"
| "notifiedTicks (event # events) = notifiedTicks events"

text \<open>No transport error: no event is an error of the monitor or of the write.\<close>

fun errorFree :: "download_event list \<Rightarrow> bool" where
  "errorFree [] = True"
| "errorFree (Notification (MonitorError e) # events) = False"
| "errorFree (WriteRejected e # events) = False"
| "errorFree (event # events) = errorFree events"

subsection \<open>Idle drain\<close>

text \<open>
  The state of one \<open>waitForPendingTicks\<close> call: the module state it works on, the two slots
  of its \<open>subscriptions\<close> object (whether \<open>monitor\<close> holds the subscription, and the
  identifier in \<open>timeout\<close>), the promise with the clock reading at which it settled, the
  values passed to \<open>onTick\<close> and the calls made on the device.

  \<open>Background.setTimeout\<close> attaches the callback to the promise of the native call with
  \<open>then\<close>, so the callback runs in a later turn of the JavaScript thread than the one in
  which the native block resolves the promise. \<open>timerBlocks\<close> are the native blocks whose
  promise carries a callback of this drain, and \<open>resolvedTimers\<close> those among them that
  have run and whose callback is still to run.
\<close>

record drain =
  drainWorld :: world
  subscriptionsMonitor :: bool
  subscriptionsTimeout :: "nat option"
  drainPromise :: "unit promise"
  drainSettledAt :: "nat option"
  drainTicks :: "nat list"
  drainCalls :: "device_call list"
  timerBlocks :: "nat list"
  resolvedTimers :: "nat list"

definition clearSubscriptions :: "drain \<Rightarrow> drain" where
  "clearSubscriptions st =
     (let st1 = (if subscriptionsMonitor st
                 then st\<lparr> drainCalls := drainCalls st @ [SubscriptionRemove],
                          subscriptionsMonitor := False \<rparr>
                 else st)
      in case subscriptionsTimeout st1 of
           None \<Rightarrow> st1
         | Some timeoutId \<Rightarrow>
             st1\<lparr> drainWorld := Background_clearTimeout timeoutId (drainWorld st1),
                  subscriptionsTimeout := None \<rparr>)"

definition drainSettle :: "unit promise \<Rightarrow> drain \<Rightarrow> drain" where
  "drainSettle outcome st =
     (if drainPromise st = Pending
      then st\<lparr>drainPromise := outcome, drainSettledAt := Some (now (drainWorld st))\<rparr>
      else st)"

text \<open>
  The callback given to \<open>Background.setTimeout\<close>, the same at both places. It does not
  look at which timer it belongs to.
\<close>

definition idleTimeoutCallback :: "drain \<Rightarrow> drain" where
  "idleTimeoutCallback st =
     drainSettle (Resolved ()) (clearSubscriptions (st\<lparr>subscriptionsTimeout := None\<rparr>))"

text \<open>
  \<open>subscriptions.timeout = Background.setTimeout(callback, tickTimeout)\<close>: the native call
  creates the block named by the block counter, and the callback hangs on its promise.
\<close>

definition startIdleTimeout :: "nat \<Rightarrow> drain \<Rightarrow> drain" where
  "startIdleTimeout tickTimeout st =
     (let (timeoutId, w1) = Background_setTimeout tickTimeout (drainWorld st)
      in st\<lparr> drainWorld := w1, subscriptionsTimeout := Some timeoutId,
              timerBlocks := timerBlocks st @ [nextBlock (drainWorld st)] \<rparr>)"

text \<open>The promise's executor: it starts the idle timer, then subscribes.\<close>

definition waitForPendingTicks :: "nat \<Rightarrow> world \<Rightarrow> drain" where
  "waitForPendingTicks tickTimeout w =
     (startIdleTimeout tickTimeout
        \<lparr> drainWorld = w, subscriptionsMonitor = False, subscriptionsTimeout = None,
          drainPromise = Pending, drainSettledAt = None, drainTicks = [], drainCalls = [],
          timerBlocks = [], resolvedTimers = [] \<rparr>)
       \<lparr> subscriptionsMonitor := True,
         drainCalls := [MonitorCharacteristicForService serviceUUID rxUUID] \<rparr>"

definition drainMonitorCallback :: "nat \<Rightarrow> monitor_event \<Rightarrow> drain \<Rightarrow> drain" where
  "drainMonitorCallback tickTimeout event st =
     (case event of
        MonitorError e \<Rightarrow>
          drainSettle (Rejected e) (clearSubscriptions (st\<lparr>subscriptionsMonitor := False\<rparr>))
      | Characteristic None \<Rightarrow> st
      | Characteristic (Some bytes) \<Rightarrow>
          (case getUint32 bytes of
             None \<Rightarrow> st
           | Some ticks \<Rightarrow>
               let st1 = st\<lparr>drainTicks := drainTicks st @ [ticks]\<rparr>;
                   st2 = (case subscriptionsTimeout st1 of
                            None \<Rightarrow> st1
                          | Some timeoutId \<Rightarrow>
                              st1\<lparr>drainWorld :=
                                    Background_clearTimeout timeoutId (drainWorld st1)\<rparr>)
               in startIdleTimeout tickTimeout st2))"

text \<open>
  What can happen to a drain, each at a clock reading. The main queue runs a queued block
  that is due: the native entry goes and the promise is resolved, which queues the callback
  if the block is one of the drain's. The JavaScript thread runs the next queued callback.
  The library calls the monitor callback, if the subscription exists. A step that cannot
  happen in the state it meets (a block not queued or not yet due, no callback queued, no
  subscription) leaves the state as it is, but for the clock.
\<close>

datatype drain_step = BlockRuns nat | CallbackRuns | Notified monitor_event

definition drainStep :: "nat \<Rightarrow> nat \<times> drain_step \<Rightarrow> drain \<Rightarrow> drain" where
  "drainStep tickTimeout timed st =
     (let st1 = st\<lparr>drainWorld :=
                    (drainWorld st)\<lparr>now := max (now (drainWorld st)) (fst timed)\<rparr>\<rparr>
      in case snd timed of
           BlockRuns block \<Rightarrow>
             (case find (\<lambda>d. handle d = block) (mainQueue (drainWorld st1)) of
                None \<Rightarrow> st1
              | Some d \<Rightarrow>
                  if due d \<le> now (drainWorld st1)
                  then st1\<lparr> drainWorld := runBlock block (drainWorld st1),
                            timerBlocks := removeAll block (timerBlocks st1),
                            resolvedTimers :=
                              resolvedTimers st1 @
                                (if block \<in> set (timerBlocks st1) then [block] else []) \<rparr>
                  else st1)
         | CallbackRuns \<Rightarrow>
             (case resolvedTimers st1 of
                [] \<Rightarrow> st1
              | block # blocks \<Rightarrow> idleTimeoutCallback (st1\<lparr>resolvedTimers := blocks\<rparr>))
         | Notified event \<Rightarrow>
             if monitoring (drainCalls st1) then drainMonitorCallback tickTimeout event st1
             else st1)"

fun drainSteps :: "nat \<Rightarrow> (nat \<times> drain_step) list \<Rightarrow> drain \<Rightarrow> drain" where
  "drainSteps tickTimeout [] st = st"
| "drainSteps tickTimeout (timed # rest) st =
     drainSteps tickTimeout rest (drainStep tickTimeout timed st)"

section \<open>Connections (BleManager.ts)\<close>

text \<open>
  The BLE library is outside the repository. Its manager is modelled by the calls made to it,
  in order, and by the answers it gives: the states it reports to the state listener (the
  current one first), the result of the query for connected devices, the results the scan
  callback receives before the scan timeout, and the results of the connection calls.
\<close>

datatype State = Unknown | Resetting | Unsupported | Unauthorized | PoweredOff | PoweredOn

datatype Device = Device (deviceId: string) (serviceUUIDs: "string list option")

datatype manager_call =
    OnStateChange
  | StateSubscriptionRemove
  | ConnectedDevices "string list"
  | StartDeviceScan "string list"
  | StopDeviceScan
  | OnDisconnected Device
  | IsConnected Device
  | Connect Device nat
  | DiscoverAllServicesAndCharacteristics Device

datatype scan_result = ScanResult "error option" "Device option"

record answers =
  stateChanges :: "State list"
  connectedDevicesAnswer :: "Device list promise"
  scanResults :: "scan_result list"
  isConnectedAnswer :: "bool promise"
  connectAnswer :: "unit promise"
  discoverAnswer :: "unit promise"

text \<open>
  \<open>waitForBLEState\<close> resolves, and removes its listener, at the first reported state that
  equals the awaited one; it never rejects.
\<close>

definition waitForBLEState :: "State \<Rightarrow> State list \<Rightarrow> unit promise \<times> manager_call list" where
  "waitForBLEState state changes =
     (if state \<in> set changes then (Resolved (), [OnStateChange, StateSubscriptionRemove])
      else (Pending, [OnStateChange]))"

subsection \<open>Scanning\<close>

record scan =
  scanWorld :: world
  scanTimeout :: "nat option"
  scanPromise :: "Device promise"
  scanCalls :: "manager_call list"

text \<open>
  \<open>clearSubscriptions\<close> of \<open>scanDevice\<close> stops the scan and clears the timer when the slot
  is truthy: the test is \<open>if (subscriptions.timeout)\<close>, which the identifier 0 fails.
\<close>

definition scanClearSubscriptions :: "scan \<Rightarrow> scan" where
  "scanClearSubscriptions st =
     (let st1 = st\<lparr>scanCalls := scanCalls st @ [StopDeviceScan]\<rparr>
      in case scanTimeout st1 of
           None \<Rightarrow> st1
         | Some timeoutId \<Rightarrow>
             if timeoutId \<noteq> 0
             then st1\<lparr> scanWorld := Background_clearTimeout timeoutId (scanWorld st1),
                       scanTimeout := None \<rparr>
             else st1)"

definition scanTimeoutCallback :: "nat \<Rightarrow> scan \<Rightarrow> scan" where
  "scanTimeoutCallback timeout st =
     (let st1 = scanClearSubscriptions (st\<lparr>scanTimeout := None\<rparr>)
      in st1\<lparr>scanPromise :=
               reject (Error (''Scan timeout after '' @ toString timeout @ '' ms''))
                 (scanPromise st1)\<rparr>)"

text \<open>
  The scan callback. After an error it does not return, so a device passed with the error is
  still examined. A device is accepted when its advertised services contain the service.
\<close>

definition scanCallback :: "scan_result \<Rightarrow> scan \<Rightarrow> scan" where
  "scanCallback result st =
     (case result of
        ScanResult error scannedDevice \<Rightarrow>
          let st1 = (case error of
                       None \<Rightarrow> st
                     | Some e \<Rightarrow>
                         (scanClearSubscriptions st)
                           \<lparr>scanPromise := reject e (scanPromise (scanClearSubscriptions st))\<rparr>)
          in (case scannedDevice of
                None \<Rightarrow> st1
              | Some device \<Rightarrow>
                  (case serviceUUIDs device of
                     None \<Rightarrow> st1
                   | Some uuids \<Rightarrow>
                       if find (\<lambda>uuid. uuid = serviceUUID) uuids \<noteq> None
                       then (scanClearSubscriptions st1)
                              \<lparr>scanPromise :=
                                  resolve device (scanPromise (scanClearSubscriptions st1))\<rparr>
                       else st1)))"

text \<open>
  The scan results arrive while the promise is pending (every settling path stops the scan).
  When they are exhausted and the promise is still pending, the timer, if one was started and
  is still registered, fires.
\<close>

fun scanLoop :: "nat \<Rightarrow> scan_result list \<Rightarrow> scan \<Rightarrow> scan" where
  "scanLoop timeout [] st =
     (if scanPromise st = Pending
      then (case scanTimeout st of
              None \<Rightarrow> st
            | Some timeoutId \<Rightarrow>
                (case pendingTimers (scanWorld st) (toString timeoutId) of
                   None \<Rightarrow> st
                 | Some block \<Rightarrow>
                     scanTimeoutCallback timeout
                       (st\<lparr>scanWorld := fireTimer block (scanWorld st)\<rparr>)))
      else st)"
| "scanLoop timeout (result # results) st =
     (if scanPromise st = Pending then scanLoop timeout results (scanCallback result st) else st)"

definition scanDevice :: "nat \<Rightarrow> scan_result list \<Rightarrow> world \<Rightarrow> scan" where
  "scanDevice timeout results w =
     scanLoop timeout results
       (if timeout > 0
        then (let (timeoutId, w1) = Background_setTimeout timeout w
              in \<lparr> scanWorld = w1, scanTimeout = Some timeoutId, scanPromise = Pending,
                    scanCalls = [StartDeviceScan [serviceUUID]] \<rparr>)
        else \<lparr> scanWorld = w, scanTimeout = None, scanPromise = Pending,
               scanCalls = [StartDeviceScan [serviceUUID]] \<rparr>)"

subsection \<open>Connecting\<close>

definition connectToDevice ::
  "Device \<Rightarrow> nat \<Rightarrow> answers \<Rightarrow> Device promise \<times> manager_call list" where
  "connectToDevice device timeout a =
     (case isConnectedAnswer a of
        Pending \<Rightarrow> (Pending, [OnDisconnected device, IsConnected device])
      | Rejected e \<Rightarrow> (Rejected e, [OnDisconnected device, IsConnected device])
      | Resolved connected \<Rightarrow>
          let (linked, calls) =
                (if connected
                 then (Resolved (), [OnDisconnected device, IsConnected device])
                 else (connectAnswer a,
                       [OnDisconnected device, IsConnected device, Connect device timeout]))
          in (case linked of
                Pending \<Rightarrow> (Pending, calls)
              | Rejected e \<Rightarrow> (Rejected e, calls)
              | Resolved u \<Rightarrow>
                  (case discoverAnswer a of
                     Pending \<Rightarrow> (Pending, calls @ [DiscoverAllServicesAndCharacteristics device])
                   | Rejected e \<Rightarrow>
                       (Rejected e, calls @ [DiscoverAllServicesAndCharacteristics device])
                   | Resolved u' \<Rightarrow>
                       (Resolved device, calls @ [DiscoverAllServicesAndCharacteristics device]))))"

text \<open>
  \<open>establishConnection\<close>: wait for the radio, ask for the connected devices, take the first
  one or scan for 5000 ms, then connect with a timeout of 5000 ms. The result is the
  promise, the calls made to the manager and the module state.
\<close>

definition establishConnection ::
  "answers \<Rightarrow> world \<Rightarrow> Device promise \<times> manager_call list \<times> world" where
  "establishConnection a w =
     (let (ready, calls) = waitForBLEState PoweredOn (stateChanges a)
      in case ready of
           Pending \<Rightarrow> (Pending, calls, w)
         | Rejected e \<Rightarrow> (Rejected e, calls, w)
         | Resolved u \<Rightarrow>
             (case connectedDevicesAnswer a of
                Pending \<Rightarrow> (Pending, calls @ [ConnectedDevices [serviceUUID]], w)
              | Rejected e \<Rightarrow> (Rejected e, calls @ [ConnectedDevices [serviceUUID]], w)
              | Resolved connectedDevices \<Rightarrow>
                  let (found, calls1, w1) =
                        (if length connectedDevices > 0
                         then (Resolved (connectedDevices ! 0),
                               calls @ [ConnectedDevices [serviceUUID]], w)
                         else (let st = scanDevice 5000 (scanResults a) w
                               in (scanPromise st,
                                   calls @ [ConnectedDevices [serviceUUID]] @ scanCalls st,
                                   scanWorld st)))
                  in (case found of
                        Pending \<Rightarrow> (Pending, calls1, w1)
                      | Rejected e \<Rightarrow> (Rejected e, calls1, w1)
                      | Resolved device \<Rightarrow>
                          (fst (connectToDevice device 5000 a),
                           calls1 @ snd (connectToDevice device 5000 a), w1))))"

section \<open>Properties of the native module\<close>

subsection \<open>Timers\<close>

lemma liveTimers_setTimeout:
  "liveTimers t (setTimeout timeout t' w) =
     liveTimers t w @ (if t' = t then [Dispatched (nextBlock w) (now w + timeout) t'] else [])"
  by (simp add: liveTimers_def setTimeout_def)

lemma liveTimers_clearTimeout:
  "length (liveTimers t (clearTimeout t' w)) \<le> length (liveTimers t w)"
proof (cases "pendingTimers w t'")
  case None
  then show ?thesis by (simp add: clearTimeout_def)
next
  case (Some block)
  have "liveTimers t (clearTimeout t' w) = filter (\<lambda>d. handle d \<noteq> block) (liveTimers t w)"
    using Some by (simp add: clearTimeout_def liveTimers_def conj_commute)
  then show ?thesis by simp
qed

lemma liveTimers_runBlock:
  "length (liveTimers t (runBlock block w)) \<le> length (liveTimers t w)"
proof (cases "find (\<lambda>d. handle d = block) (mainQueue w)")
  case None
  then show ?thesis by (simp add: runBlock_def)
next
  case (Some d)
  have "liveTimers t (runBlock block w) = filter (\<lambda>d. handle d \<noteq> block) (liveTimers t w)"
    using Some by (simp add: runBlock_def liveTimers_def conj_commute)
  then show ?thesis by simp
qed

lemma timerStep_keeps_single:
  assumes "\<forall>t. length (liveTimers t w) \<le> 1" and "startsUnused (s # ss) w"
  shows "\<forall>t. length (liveTimers t (timerStep s w)) \<le> 1"
proof (cases s)
  case (Start timeout t')
  with assms show ?thesis by (simp add: liveTimers_setTimeout)
next
  case (Cancel t')
  show ?thesis
  proof
    fix t
    have "length (liveTimers t (clearTimeout t' w)) \<le> length (liveTimers t w)"
      by (rule liveTimers_clearTimeout)
    moreover have "length (liveTimers t w) \<le> 1"
      using assms(1) by blast
    ultimately show "length (liveTimers t (timerStep s w)) \<le> 1"
      using Cancel by simp
  qed
next
  case (Fire block)
  show ?thesis
  proof
    fix t
    have "length (liveTimers t (runBlock block w)) \<le> length (liveTimers t w)"
      by (rule liveTimers_runBlock)
    moreover have "length (liveTimers t w) \<le> 1"
      using assms(1) by blast
    ultimately show "length (liveTimers t (timerStep s w)) \<le> 1"
      using Fire by simp
  qed
qed

lemma startsUnused_tail: "startsUnused (s # ss) w \<Longrightarrow> startsUnused ss (timerStep s w)"
  by (cases s) simp_all

text \<open>
  Claim C4, as amended. The claim says that at most one timer per identifier is ever pending,
  whatever the sequence of start, cancel and fire steps. \<open>setTimeout\<close> does not
  cancel a timer already pending under the identifier, so the claim holds for the sequences
  in which a timer is started only under an identifier that has no timer still to fire (the
  wrapper's counter gives every timer a new identifier): then, after every prefix of the
  sequence, each identifier has at most one timer still to fire. Started twice under one
  identifier, two timers are pending.
\<close>

theorem one_live_timer_per_unused_start:
  assumes "\<forall>t. length (liveTimers t w) \<le> 1" and "startsUnused steps w"
  shows "length (liveTimers timeoutId (runTimerSteps (take n steps) w)) \<le> 1"
  using assms
proof (induction steps arbitrary: w n)
  case Nil
  then show ?case by simp
next
  case (Cons s ss)
  show ?case
  proof (cases n)
    case 0
    with Cons.prems show ?thesis by simp
  next
    case (Suc m)
    have "\<forall>t. length (liveTimers t (timerStep s w)) \<le> 1"
      using Cons.prems by (rule timerStep_keeps_single)
    moreover have "startsUnused ss (timerStep s w)"
      using Cons.prems(2) by (rule startsUnused_tail)
    ultimately have "length (liveTimers timeoutId (runTimerSteps (take m ss) (timerStep s w))) \<le> 1"
      by (rule Cons.IH)
    with Suc show ?thesis by simp
  qed
qed

theorem one_live_timer_per_unused_start_witness:
  "length (liveTimers ''0''
     (runTimerSteps (take 3 [Start 100 ''0'', Cancel ''0'', Start 50 ''0'', Fire 1]) init)) \<le> 1"
  using one_live_timer_per_unused_start
    [of init "[Start 100 ''0'', Cancel ''0'', Start 50 ''0'', Fire 1]" "''0''" 3]
  by (simp add: init_def liveTimers_def setTimeout_def clearTimeout_def)

theorem restart_leaves_two_timers:
  "length (liveTimers ''0'' (runTimerSteps [Start 100 ''0'', Start 100 ''0''] init)) = 2"
  by (simp add: init_def liveTimers_def setTimeout_def)

subsection \<open>Background tasks\<close>

text \<open>
  Claim C6. When the expiration handler of a background task runs and the task's handle is
  in the registry: with an observer registered, the module emits the expired event with the
  task name and nothing else, so no release reaches the OS and the registry is unchanged;
  with no observer, it calls the OS release with the stored identifier and removes the
  handle from the registry.
\<close>

theorem background_task_expiry_policy:
  assumes "pendingBackgroundTasks w taskName = Some taskId"
  shows "(hasListeners w \<longrightarrow>
            osCalls (backgroundTaskExpired taskName w) =
              osCalls w @ [SendEvent BackgroundTaskExpiredEvent taskName] \<and>
            pendingBackgroundTasks (backgroundTaskExpired taskName w) = pendingBackgroundTasks w) \<and>
         (\<not> hasListeners w \<longrightarrow>
            osCalls (backgroundTaskExpired taskName w) = osCalls w @ [EndBackgroundTask taskId] \<and>
            pendingBackgroundTasks (backgroundTaskExpired taskName w) =
              (pendingBackgroundTasks w)(taskName := None))"
  using assms by (simp add: backgroundTaskExpired_def)

theorem background_task_expiry_policy_witness:
  "osCalls (backgroundTaskExpired ''job''
      (snd (startBackgroundTask ''job'' 7 (startObserving init)))) =
     [SendEvent BackgroundTaskExpiredEvent ''job''] \<and>
   pendingBackgroundTasks (backgroundTaskExpired ''job''
      (snd (startBackgroundTask ''job'' 7 (startObserving init)))) ''job'' = Some 7 \<and>
   osCalls (backgroundTaskExpired ''job'' (snd (startBackgroundTask ''job'' 7 init))) =
     [EndBackgroundTask 7] \<and>
   pendingBackgroundTasks (backgroundTaskExpired ''job''
      (snd (startBackgroundTask ''job'' 7 init))) ''job'' = None"
  using background_task_expiry_policy
          [of "snd (startBackgroundTask ''job'' 7 (startObserving init))" "''job''" 7]
        background_task_expiry_policy
          [of "snd (startBackgroundTask ''job'' 7 init)" "''job''" 7]
  by (simp add: startBackgroundTask_def startObserving_def init_def UIBackgroundTaskInvalid_def)

text \<open>
  Claim C7. A granted \<open>startBackgroundTask\<close> resolves with the task name, and the
  \<open>endBackgroundTask\<close> that follows releases the granted identifier and leaves no
  handle under the name. A second granted start under the same name resolves again and ends
  in the state a start without the earlier pair reaches, but for the recorded release.
  Ending a name that has no handle changes nothing, and ending twice is ending once.
\<close>

theorem begin_end_begin:
  assumes "first \<noteq> UIBackgroundTaskInvalid" and "second \<noteq> UIBackgroundTaskInvalid"
  shows "fst (startBackgroundTask taskName first w) = Inr taskName \<and>
         pendingBackgroundTasks
           (endBackgroundTask taskName (snd (startBackgroundTask taskName first w))) =
           (pendingBackgroundTasks w)(taskName := None) \<and>
         osCalls (endBackgroundTask taskName (snd (startBackgroundTask taskName first w))) =
           osCalls w @ [EndBackgroundTask first] \<and>
         fst (startBackgroundTask taskName second
               (endBackgroundTask taskName (snd (startBackgroundTask taskName first w)))) =
           Inr taskName \<and>
         snd (startBackgroundTask taskName second
               (endBackgroundTask taskName (snd (startBackgroundTask taskName first w)))) =
           (snd (startBackgroundTask taskName second w))
             \<lparr>osCalls := osCalls w @ [EndBackgroundTask first]\<rparr> \<and>
         (pendingBackgroundTasks w taskName = None \<longrightarrow> endBackgroundTask taskName w = w) \<and>
         endBackgroundTask taskName (endBackgroundTask taskName w) = endBackgroundTask taskName w"
  using assms
  by (simp add: startBackgroundTask_def endBackgroundTask_def split: option.splits)

theorem begin_end_begin_witness:
  "fst (startBackgroundTask ''job'' 7 init) = Inr ''job'' \<and>
   pendingBackgroundTasks
     (endBackgroundTask ''job'' (snd (startBackgroundTask ''job'' 7 init))) ''job'' = None \<and>
   osCalls (endBackgroundTask ''job'' (snd (startBackgroundTask ''job'' 7 init))) =
     [EndBackgroundTask 7] \<and>
   pendingBackgroundTasks
     (snd (startBackgroundTask ''job'' 9
        (endBackgroundTask ''job'' (snd (startBackgroundTask ''job'' 7 init))))) ''job'' =
     Some 9 \<and>
   endBackgroundTask ''job'' init = init"
  using begin_end_begin [of 7 9 "''job''" init]
  by (simp add: UIBackgroundTaskInvalid_def init_def startBackgroundTask_def)

subsection \<open>Processing tasks\<close>

text \<open>
  Claim C8. A processing task delivered while no observer is registered is reported to the
  OS as completed with success and the executing registry is left as it was.
  \<open>completeBackgroundProcessing\<close> on a name that is not in the executing registry
  changes nothing; on a name that is, it removes the entry and reports the given result for
  the stored task.
\<close>

theorem processing_task_without_observer:
  "(\<not> hasListeners w \<longrightarrow>
      backgroundTaskExecuting task w =
        w\<lparr>osCalls := osCalls w @ [SetTaskCompletedWithSuccess task True]\<rparr>) \<and>
   (executingTasks w taskName = None \<longrightarrow>
      completeBackgroundProcessing taskName result w = w) \<and>
   (executingTasks w taskName = Some running \<longrightarrow>
      executingTasks (completeBackgroundProcessing taskName result w) =
        (executingTasks w)(taskName := None) \<and>
      osCalls (completeBackgroundProcessing taskName result w) =
        osCalls w @ [SetTaskCompletedWithSuccess running result])"
  by (simp add: backgroundTaskExecuting_def completeBackgroundProcessing_def)

theorem processing_task_without_observer_witness:
  "executingTasks (backgroundTaskExecuting (BGProcessingTask ''LongRunningTask'' 1) init)
     ''LongRunningTask'' = None \<and>
   osCalls (backgroundTaskExecuting (BGProcessingTask ''LongRunningTask'' 1) init) =
     [SetTaskCompletedWithSuccess (BGProcessingTask ''LongRunningTask'' 1) True] \<and>
   completeBackgroundProcessing ''LongRunningTask'' False init = init \<and>
   osCalls (completeBackgroundProcessing ''LongRunningTask'' False
     (backgroundTaskExecuting (BGProcessingTask ''LongRunningTask'' 1) (startObserving init))) =
     [SetExpirationHandler (BGProcessingTask ''LongRunningTask'' 1),
      SendEvent BackgroundProcessingExecutingEvent ''LongRunningTask'',
      SetTaskCompletedWithSuccess (BGProcessingTask ''LongRunningTask'' 1) False] \<and>
   executingTasks (completeBackgroundProcessing ''LongRunningTask'' False
     (backgroundTaskExecuting (BGProcessingTask ''LongRunningTask'' 1) (startObserving init)))
     ''LongRunningTask'' = None"
  using processing_task_without_observer
     [of init "BGProcessingTask ''LongRunningTask'' 1" "''LongRunningTask''" False
         "BGProcessingTask ''LongRunningTask'' 1"]
   processing_task_without_observer
     [of "backgroundTaskExecuting (BGProcessingTask ''LongRunningTask'' 1) (startObserving init)"
         "BGProcessingTask ''LongRunningTask'' 1" "''LongRunningTask''" False
         "BGProcessingTask ''LongRunningTask'' 1"]
  by (simp add: init_def startObserving_def backgroundTaskExecuting_def)

section \<open>Properties of the processing job\<close>

lemma newCalls_completeBackgroundProcessing:
  "osCalls (completeBackgroundProcessingTask taskName result w) =
     osCalls w @ (case executingTasks w taskName of
                    None \<Rightarrow> []
                  | Some task \<Rightarrow> [SetTaskCompletedWithSuccess task result])"
  by (simp add: completeBackgroundProcessingTask_def completeBackgroundProcessing_def
        removeListener_def split: option.splits prod.splits)

text \<open>
  Claim C10. When the OS delivers the processing task while an observer is registered and the
  job's work settles, resolved or rejected, the calls that reach the OS are the expiration
  handler, the executing event and a completion with success true; on a task that is in the
  executing registry either outcome of the work reports success true. No completion with
  success false comes from the execution callback, from the delivery of the task or from
  the native expiration handler; the expired callback is the one that reports false.
\<close>

theorem job_completion_reports:
  "(hasListeners w \<and> (work = Resolved () \<or> work = Rejected e) \<longrightarrow>
      osCalls (taskExecutionCallback (taskIdentifier task) work (backgroundTaskExecuting task w)) =
        osCalls w @ [SetExpirationHandler task,
                     SendEvent BackgroundProcessingExecutingEvent (taskIdentifier task),
                     SetTaskCompletedWithSuccess task True]) \<and>
   (executingTasks w taskName = Some task \<and> (work = Resolved () \<or> work = Rejected e) \<longrightarrow>
      osCalls (taskExecutionCallback taskName work w) =
        osCalls w @ [SetTaskCompletedWithSuccess task True]) \<and>
   SetTaskCompletedWithSuccess other False \<notin>
      set (drop (length (osCalls w)) (osCalls (taskExecutionCallback taskName work w))) \<and>
   SetTaskCompletedWithSuccess other False \<notin>
      set (drop (length (osCalls w)) (osCalls (backgroundTaskExecuting task w))) \<and>
   SetTaskCompletedWithSuccess other False \<notin>
      set (drop (length (osCalls w)) (osCalls (processingTaskExpired taskName w))) \<and>
   (executingTasks w taskName = Some task \<longrightarrow>
      osCalls (taskExpiredCallback taskName w) =
        osCalls w @ [SetTaskCompletedWithSuccess task False])"
proof -
  have a: "osCalls (taskExecutionCallback (taskIdentifier task) work (backgroundTaskExecuting task w)) =
        osCalls w @ [SetExpirationHandler task,
                     SendEvent BackgroundProcessingExecutingEvent (taskIdentifier task),
                     SetTaskCompletedWithSuccess task True]"
    if "hasListeners w" and "work = Resolved () \<or> work = Rejected e"
    using that
    by (auto simp add: taskExecutionCallback_def newCalls_completeBackgroundProcessing
          backgroundTaskExecuting_def)
  have b: "osCalls (taskExecutionCallback taskName work w) =
        osCalls w @ [SetTaskCompletedWithSuccess task True]"
    if "executingTasks w taskName = Some task" and "work = Resolved () \<or> work = Rejected e"
    using that by (auto simp add: taskExecutionCallback_def newCalls_completeBackgroundProcessing)
  have c: "SetTaskCompletedWithSuccess other False \<notin>
      set (drop (length (osCalls w)) (osCalls (taskExecutionCallback taskName work w)))"
    by (cases work)
      (simp_all add: taskExecutionCallback_def newCalls_completeBackgroundProcessing
         split: option.splits)
  have d: "SetTaskCompletedWithSuccess other False \<notin>
      set (drop (length (osCalls w)) (osCalls (backgroundTaskExecuting task w)))"
    by (simp add: backgroundTaskExecuting_def)
  have f: "SetTaskCompletedWithSuccess other False \<notin>
      set (drop (length (osCalls w)) (osCalls (processingTaskExpired taskName w)))"
    by (simp add: processingTaskExpired_def split: option.splits)
  have g: "osCalls (taskExpiredCallback taskName w) =
        osCalls w @ [SetTaskCompletedWithSuccess task False]"
    if "executingTasks w taskName = Some task"
    using that by (simp add: taskExpiredCallback_def newCalls_completeBackgroundProcessing)
  from a b c d f g show ?thesis by blast
qed

theorem job_completion_reports_witness:
  "osCalls (taskExecutionCallback ''LongRunningTask'' (Resolved ())
      (backgroundTaskExecuting (BGProcessingTask ''LongRunningTask'' 1) (startObserving init))) =
     [SetExpirationHandler (BGProcessingTask ''LongRunningTask'' 1),
      SendEvent BackgroundProcessingExecutingEvent ''LongRunningTask'',
      SetTaskCompletedWithSuccess (BGProcessingTask ''LongRunningTask'' 1) True] \<and>
   osCalls (taskExecutionCallback ''LongRunningTask'' (Rejected (Error ''Scan timeout after 5000 ms''))
      (backgroundTaskExecuting (BGProcessingTask ''LongRunningTask'' 1) (startObserving init))) =
     [SetExpirationHandler (BGProcessingTask ''LongRunningTask'' 1),
      SendEvent BackgroundProcessingExecutingEvent ''LongRunningTask'',
      SetTaskCompletedWithSuccess (BGProcessingTask ''LongRunningTask'' 1) True] \<and>
   osCalls (taskExpiredCallback ''LongRunningTask''
      (backgroundTaskExecuting (BGProcessingTask ''LongRunningTask'' 1) (startObserving init))) =
     [SetExpirationHandler (BGProcessingTask ''LongRunningTask'' 1),
      SendEvent BackgroundProcessingExecutingEvent ''LongRunningTask'',
      SetTaskCompletedWithSuccess (BGProcessingTask ''LongRunningTask'' 1) False]"
  using job_completion_reports
     [of "startObserving init" "Resolved ()" "Error ''Scan timeout after 5000 ms''"
         "BGProcessingTask ''LongRunningTask'' 1" "''LongRunningTask''"]
    job_completion_reports
     [of "startObserving init" "Rejected (Error ''Scan timeout after 5000 ms'')"
         "Error ''Scan timeout after 5000 ms''"
         "BGProcessingTask ''LongRunningTask'' 1" "''LongRunningTask''"]
    job_completion_reports
     [of "backgroundTaskExecuting (BGProcessingTask ''LongRunningTask'' 1) (startObserving init)"
         "Resolved ()" "Error ''Scan timeout after 5000 ms''"
         "BGProcessingTask ''LongRunningTask'' 1" "''LongRunningTask''"]
  by (simp add: init_def startObserving_def backgroundTaskExecuting_def)

section \<open>Properties of the bounded download\<close>

text \<open>
  Claim C1. With a total of at most 0 or at least 256 the download is rejected with the
  error of the argument check, and whatever follows, nothing was subscribed or written and
  no tick was reported. With a total from 1 to 255 the executor leaves the promise pending,
  having subscribed and written the one-byte request, whose value is the total.
\<close>

theorem download_argument_check:
  "(totalTicks \<le> 0 \<or> 256 \<le> totalTicks \<longrightarrow>
      downloadPromise (downloadRun totalTicks events) =
        Rejected (Error ''Total ticks number should be > 0 and < 256'') \<and>
      downloadCalls (downloadRun totalTicks events) = [] \<and>
      onTickCalls (downloadRun totalTicks events) = []) \<and>
   (1 \<le> totalTicks \<and> totalTicks \<le> 255 \<longrightarrow>
      downloadPromise (downloadTicks totalTicks) = Pending \<and>
      downloadCalls (downloadTicks totalTicks) =
        [MonitorCharacteristicForService serviceUUID rxUUID,
         WriteCharacteristicWithoutResponseForService serviceUUID txUUID
           [word_of_int totalTicks]] \<and>
      uint (word_of_int totalTicks :: byte) = totalTicks)"
proof -
  have "uint (word_of_int totalTicks :: byte) = totalTicks"
    if "1 \<le> totalTicks" and "totalTicks \<le> 255"
    using that by (simp add: uint_word_of_int take_bit_int_eq_self)
  then show ?thesis
    by (auto simp add: downloadRun_def downloadTicks_def)
qed

theorem download_argument_check_witness:
  "downloadPromise (downloadRun 0 [WriteResolved]) =
     Rejected (Error ''Total ticks number should be > 0 and < 256'') \<and>
   downloadCalls (downloadRun 0 [WriteResolved]) = [] \<and>
   downloadPromise (downloadRun 256 [WriteResolved]) =
     Rejected (Error ''Total ticks number should be > 0 and < 256'') \<and>
   downloadCalls (downloadRun 256 [WriteResolved]) = [] \<and>
   downloadPromise (downloadTicks 255) = Pending \<and>
   downloadCalls (downloadTicks 255) =
     [MonitorCharacteristicForService serviceUUID rxUUID,
      WriteCharacteristicWithoutResponseForService serviceUUID txUUID [255]]"
  using download_argument_check [of 0 "[WriteResolved]"]
        download_argument_check [of 256 "[WriteResolved]"]
        download_argument_check [of 255 "[WriteResolved]"]
  by simp

lemma errorFree_Cons:
  "errorFree (event # events) \<longleftrightarrow>
     (\<forall>e. event \<noteq> Notification (MonitorError e)) \<and> (\<forall>e. event \<noteq> WriteRejected e) \<and>
     errorFree events"
  by (cases "event # events" rule: errorFree.cases) auto

lemma downloadSteps_unsubscribed:
  "\<not> monitoring (downloadCalls st) \<Longrightarrow> errorFree events \<Longrightarrow>
     downloadSteps totalTicks events st = st"
proof (induction events)
  case Nil
  then show ?case by simp
next
  case (Cons event events)
  have ok: "errorFree events"
    using Cons.prems(2) by (simp add: errorFree_Cons)
  have "downloadStep totalTicks event st = st"
    using Cons.prems by (cases event) (auto simp add: downloadStep_def)
  with Cons.IH Cons.prems(1) ok show ?case by simp
qed

lemma downloadSteps_counting:
  assumes "errorFree events" and "0 \<le> receivedTicks st" and "receivedTicks st < totalTicks"
    and "downloadPromise st = Pending" and "monitoring (downloadCalls st)"
  shows "onTickCalls (downloadSteps totalTicks events st) =
           onTickCalls st @
             map (\<lambda>(i, v). (i, totalTicks, v))
               (zip [receivedTicks st + 1..totalTicks] (notifiedTicks events)) \<and>
         downloadPromise (downloadSteps totalTicks events st) =
           (if totalTicks - receivedTicks st \<le> int (length (notifiedTicks events))
            then Resolved totalTicks else Pending) \<and>
         (monitoring (downloadCalls (downloadSteps totalTicks events st)) \<longleftrightarrow>
            int (length (notifiedTicks events)) < totalTicks - receivedTicks st)"
  using assms
proof (induction events arbitrary: st)
  case Nil
  then show ?case by simp
next
  case (Cons event events)
  have ok: "errorFree events"
    using Cons.prems(1) by (simp add: errorFree_Cons)
  show ?case
  proof (cases "\<exists>bytes ticks. event = Notification (Characteristic (Some bytes)) \<and>
                   getUint32 bytes = Some ticks")
    case False
    have same: "downloadStep totalTicks event st = st"
      using False Cons.prems(1)
      by (cases "event # events" rule: notifiedTicks.cases)
         (auto simp add: downloadStep_def downloadMonitorCallback_def errorFree_Cons
            split: option.splits)
    have ticks: "notifiedTicks (event # events) = notifiedTicks events"
      using False Cons.prems(1)
      by (cases "event # events" rule: notifiedTicks.cases) (auto split: option.splits)
    show ?thesis
      using Cons.IH [OF ok Cons.prems(2-5)] same ticks by simp
  next
    case True
    then obtain bytes ticks where ev: "event = Notification (Characteristic (Some bytes))"
      and dec: "getUint32 bytes = Some ticks" by blast
    have ticks: "notifiedTicks (event # events) = ticks # notifiedTicks events"
      using ev dec by simp
    have range: "[receivedTicks st + 1..totalTicks] =
                   (receivedTicks st + 1) # [receivedTicks st + 2..totalTicks]"
      using Cons.prems(3) by (simp add: upto_rec1 add.commute)
    show ?thesis
    proof (cases "receivedTicks st + 1 = totalTicks")
      case True
      let ?st' = "downloadStep totalTicks event st"
      have st': "?st' = st\<lparr> receivedTicks := totalTicks,
                   onTickCalls := onTickCalls st @ [(totalTicks, totalTicks, ticks)],
                   downloadCalls := downloadCalls st @ [SubscriptionRemove],
                   downloadPromise := Resolved totalTicks \<rparr>"
        using True ev dec Cons.prems(4,5)
        by (simp add: downloadStep_def downloadMonitorCallback_def resolve_def Let_def)
      have off: "\<not> monitoring (downloadCalls ?st')"
        by (simp add: st' monitoring_def)
      have rest: "downloadSteps totalTicks events ?st' = ?st'"
        using off ok by (rule downloadSteps_unsubscribed)
      have "[receivedTicks st + 2..totalTicks] = []"
        using True by simp
      then show ?thesis
        using rest st' ticks range True by (simp add: monitoring_def)
    next
      case False
      let ?st' = "downloadStep totalTicks event st"
      have st': "?st' = st\<lparr> receivedTicks := receivedTicks st + 1,
                   onTickCalls := onTickCalls st @ [(receivedTicks st + 1, totalTicks, ticks)] \<rparr>"
        using False ev dec Cons.prems(5)
        by (simp add: downloadStep_def downloadMonitorCallback_def Let_def)
      have ih: "onTickCalls (downloadSteps totalTicks events ?st') =
           onTickCalls ?st' @
             map (\<lambda>(i, v). (i, totalTicks, v))
               (zip [receivedTicks ?st' + 1..totalTicks] (notifiedTicks events)) \<and>
         downloadPromise (downloadSteps totalTicks events ?st') =
           (if totalTicks - receivedTicks ?st' \<le> int (length (notifiedTicks events))
            then Resolved totalTicks else Pending) \<and>
         (monitoring (downloadCalls (downloadSteps totalTicks events ?st')) \<longleftrightarrow>
            int (length (notifiedTicks events)) < totalTicks - receivedTicks ?st')"
        using Cons.prems(2-5) False
        by (intro Cons.IH [OF ok]) (simp_all add: st')
      have two: "receivedTicks st + 1 + 1 = receivedTicks st + 2" by simp
      show ?thesis
        using ih ticks range by (simp add: st' two)
    qed
  qed
qed

text \<open>
  Claim C2. For a total from 1 to 255 and events without transport error, the calls to
  \<open>onTick\<close> are the notified values in order, numbered from 1 and stopping at the
  total; the promise is resolved with the total exactly when that many values have arrived
  and is pending before; the subscription exists exactly until then. The number of calls is
  the smaller of the total and the number of values.
\<close>

theorem download_delivers_each_tick_once:
  assumes "1 \<le> totalTicks" and "totalTicks \<le> 255" and "errorFree events"
  shows "onTickCalls (downloadRun totalTicks events) =
           map (\<lambda>(i, v). (i, totalTicks, v)) (zip [1..totalTicks] (notifiedTicks events)) \<and>
         downloadPromise (downloadRun totalTicks events) =
           (if totalTicks \<le> int (length (notifiedTicks events))
            then Resolved totalTicks else Pending) \<and>
         (monitoring (downloadCalls (downloadRun totalTicks events)) \<longleftrightarrow>
            int (length (notifiedTicks events)) < totalTicks) \<and>
         length (onTickCalls (downloadRun totalTicks events)) =
           min (nat totalTicks) (length (notifiedTicks events))"
proof -
  let ?st = "downloadTicks totalTicks"
  have run: "downloadRun totalTicks events = downloadSteps totalTicks events ?st"
    using assms(1,2) by (simp add: downloadRun_def downloadTicks_def)
  have start: "receivedTicks ?st = 0" "downloadPromise ?st = Pending" "onTickCalls ?st = []"
    "monitoring (downloadCalls ?st)"
    using assms(1,2) by (simp_all add: downloadTicks_def monitoring_def)
  have main: "onTickCalls (downloadSteps totalTicks events ?st) =
           onTickCalls ?st @
             map (\<lambda>(i, v). (i, totalTicks, v))
               (zip [receivedTicks ?st + 1..totalTicks] (notifiedTicks events)) \<and>
         downloadPromise (downloadSteps totalTicks events ?st) =
           (if totalTicks - receivedTicks ?st \<le> int (length (notifiedTicks events))
            then Resolved totalTicks else Pending) \<and>
         (monitoring (downloadCalls (downloadSteps totalTicks events ?st)) \<longleftrightarrow>
            int (length (notifiedTicks events)) < totalTicks - receivedTicks ?st)"
    using assms(1) start by (intro downloadSteps_counting [OF assms(3)]) simp_all
  have len: "length [1..totalTicks] = nat totalTicks"
    by simp
  show ?thesis
    using main len by (simp add: run start)
qed

lemma errorFree_replicate:
  "errorFree (replicate n (Notification (Characteristic (Some bytes))))"
  by (induction n) simp_all

lemma notifiedTicks_replicate:
  "getUint32 bytes = Some ticks \<Longrightarrow>
     notifiedTicks (replicate n (Notification (Characteristic (Some bytes)))) = replicate n ticks"
  by (induction n) simp_all

theorem download_delivers_each_tick_once_witness:
  "onTickCalls (downloadRun 2
      [WriteResolved, Notification (Characteristic (Some [7, 0, 0, 0])),
       Notification (Characteristic (Some [0, 1, 0, 0]))]) = [(1, 2, 7), (2, 2, 256)] \<and>
   downloadPromise (downloadRun 2
      [WriteResolved, Notification (Characteristic (Some [7, 0, 0, 0])),
       Notification (Characteristic (Some [0, 1, 0, 0]))]) = Resolved 2 \<and>
   length (onTickCalls (downloadRun 255
      (replicate 300 (Notification (Characteristic (Some [7, 0, 0, 0])))))) = 255 \<and>
   downloadPromise (downloadRun 255
      (replicate 300 (Notification (Characteristic (Some [7, 0, 0, 0]))))) = Resolved 255"
proof -
  have "[1..2::int] = [1, 2]"
    by (simp add: upto_rec1)
  then show ?thesis
    using download_delivers_each_tick_once [of 2
        "[WriteResolved, Notification (Characteristic (Some [7, 0, 0, 0])),
          Notification (Characteristic (Some [0, 1, 0, 0]))]"]
      download_delivers_each_tick_once [of 255
        "replicate 300 (Notification (Characteristic (Some [7, 0, 0, 0])))"]
    by (simp add: errorFree_replicate notifiedTicks_replicate [of _ 7])
qed

section \<open>Properties of the idle drain\<close>

text \<open>
  A drain left alone: a value arrives at 9000, the timer it starts runs out at 19000 and its
  callback resolves the drain then, with nothing left queued.
\<close>

lemma orderly_schedule_resolves_after_timeout:
  "drainSteps 10000
     [(9000, Notified (Characteristic (Some [5, 0, 0, 0]))), (19000, BlockRuns 1),
      (19000, CallbackRuns)] (waitForPendingTicks 10000 init) =
   \<lparr> drainWorld = init\<lparr> nextBlock := 2, now := 19000, osCalls := [Resolve ''1''],
                         nextTimeoutId := 2 \<rparr>,
     subscriptionsMonitor = False, subscriptionsTimeout = None, drainPromise = Resolved (),
     drainSettledAt = Some 19000, drainTicks = [5],
     drainCalls = [MonitorCharacteristicForService serviceUUID rxUUID, SubscriptionRemove],
     timerBlocks = [0], resolvedTimers = [] \<rparr>"
  by (simp add: waitForPendingTicks_def startIdleTimeout_def Background_setTimeout_def
        Background_clearTimeout_def setTimeout_def clearTimeout_def runBlock_def drainStep_def
        drainMonitorCallback_def idleTimeoutCallback_def clearSubscriptions_def drainSettle_def
        monitoring_def init_def Let_def toString.simps [of 0] toString.simps [of "Suc 0"])

lemma stale_schedule_state:
  "drainSteps 10000
     [(10000, BlockRuns 0), (10000, Notified (Characteristic (Some [5, 0, 0, 0]))),
      (10000, CallbackRuns)] (waitForPendingTicks 10000 init) =
   \<lparr> drainWorld = init\<lparr> pendingTimers := Map.empty(''1'' \<mapsto> 1),
                         mainQueue := [Dispatched 1 20000 ''1''], nextBlock := 2, now := 10000,
                         osCalls := [Resolve ''0''], nextTimeoutId := 2 \<rparr>,
     subscriptionsMonitor = False, subscriptionsTimeout = None, drainPromise = Resolved (),
     drainSettledAt = Some 10000, drainTicks = [5],
     drainCalls = [MonitorCharacteristicForService serviceUUID rxUUID, SubscriptionRemove],
     timerBlocks = [1], resolvedTimers = [] \<rparr>"
  by (simp add: waitForPendingTicks_def startIdleTimeout_def Background_setTimeout_def
        Background_clearTimeout_def setTimeout_def clearTimeout_def runBlock_def drainStep_def
        drainMonitorCallback_def idleTimeoutCallback_def clearSubscriptions_def drainSettle_def
        monitoring_def init_def Let_def toString.simps [of 0] toString.simps [of "Suc 0"])

text \<open>
  Claim C3, where the code departs from it. The claim says that every received value
  restarts the idle timer, so that the drain resolves exactly when the timeout has elapsed
  with no value since the last one. With a timeout of 10000: the block of the first timer
  runs at 10000; a value is handled before the callback of that timer; then the callback
  runs. The value is passed to \<open>onTick\<close> and a second timer is started, due at 20000,
  but the callback of the first timer resolves the drain at 10000, and the second timer
  stays queued and registered while the slot is empty.
\<close>

theorem stale_idle_callback_resolves_early:
  "drainTicks (drainSteps 10000
     [(10000, BlockRuns 0), (10000, Notified (Characteristic (Some [5, 0, 0, 0]))),
      (10000, CallbackRuns)] (waitForPendingTicks 10000 init)) = [5] \<and>
   drainPromise (drainSteps 10000
     [(10000, BlockRuns 0), (10000, Notified (Characteristic (Some [5, 0, 0, 0]))),
      (10000, CallbackRuns)] (waitForPendingTicks 10000 init)) = Resolved () \<and>
   drainSettledAt (drainSteps 10000
     [(10000, BlockRuns 0), (10000, Notified (Characteristic (Some [5, 0, 0, 0]))),
      (10000, CallbackRuns)] (waitForPendingTicks 10000 init)) = Some 10000 \<and>
   mainQueue (drainWorld (drainSteps 10000
     [(10000, BlockRuns 0), (10000, Notified (Characteristic (Some [5, 0, 0, 0]))),
      (10000, CallbackRuns)] (waitForPendingTicks 10000 init))) = [Dispatched 1 20000 ''1''] \<and>
   pendingTimers (drainWorld (drainSteps 10000
     [(10000, BlockRuns 0), (10000, Notified (Characteristic (Some [5, 0, 0, 0]))),
      (10000, CallbackRuns)] (waitForPendingTicks 10000 init))) ''1'' = Some 1 \<and>
   subscriptionsTimeout (drainSteps 10000
     [(10000, BlockRuns 0), (10000, Notified (Characteristic (Some [5, 0, 0, 0]))),
      (10000, CallbackRuns)] (waitForPendingTicks 10000 init)) = None"
  unfolding stale_schedule_state by simp

section \<open>Release of subscriptions and timers\<close>

lemma downloadStep_keeps_removal:
  "SubscriptionRemove \<in> set (downloadCalls st) \<Longrightarrow>
     SubscriptionRemove \<in> set (downloadCalls (downloadStep totalTicks event st))"
  by (cases event)
     (auto simp add: downloadStep_def downloadMonitorCallback_def downloadWriteFailed_def
        monitoring_def)

lemma downloadSteps_keeps_removal:
  "SubscriptionRemove \<in> set (downloadCalls st) \<Longrightarrow>
     SubscriptionRemove \<in> set (downloadCalls (downloadSteps totalTicks events st))"
  by (induction events arbitrary: st) (simp_all add: downloadStep_keeps_removal)

lemma downloadStep_resolved_removed:
  assumes "\<forall>x. downloadPromise st = Resolved x \<longrightarrow> SubscriptionRemove \<in> set (downloadCalls st)"
  shows "\<forall>x. downloadPromise (downloadStep totalTicks event st) = Resolved x \<longrightarrow>
           SubscriptionRemove \<in> set (downloadCalls (downloadStep totalTicks event st))"
proof (cases event)
  case (Notification m)
  show ?thesis
  proof (cases "monitoring (downloadCalls st)")
    case False
    then show ?thesis using assms Notification by (simp add: downloadStep_def)
  next
    case True
    then show ?thesis
      using assms Notification
      by (cases m)
         (auto simp add: downloadStep_def downloadMonitorCallback_def reject_def resolve_def
            Let_def split: option.splits promise.splits)
  qed
next
  case WriteResolved
  then show ?thesis using assms by (simp add: downloadStep_def)
next
  case (WriteRejected e)
  then show ?thesis by (simp add: downloadStep_def downloadWriteFailed_def)
qed

lemma downloadSteps_resolved_removed:
  assumes "\<forall>x. downloadPromise st = Resolved x \<longrightarrow> SubscriptionRemove \<in> set (downloadCalls st)"
  shows "\<forall>x. downloadPromise (downloadSteps totalTicks events st) = Resolved x \<longrightarrow>
           SubscriptionRemove \<in> set (downloadCalls (downloadSteps totalTicks events st))"
  using assms
proof (induction events arbitrary: st)
  case Nil
  then show ?case by simp
next
  case (Cons event events)
  have "\<forall>x. downloadPromise (downloadStep totalTicks event st) = Resolved x \<longrightarrow>
           SubscriptionRemove \<in> set (downloadCalls (downloadStep totalTicks event st))"
    using Cons.prems by (rule downloadStep_resolved_removed)
  then show ?case using Cons.IH by simp
qed

lemma downloadSteps_write_failed:
  "WriteRejected e \<in> set events \<Longrightarrow>
     SubscriptionRemove \<in> set (downloadCalls (downloadSteps totalTicks events st))"
proof (induction events arbitrary: st)
  case Nil
  then show ?case by simp
next
  case (Cons event events)
  show ?case
  proof (cases "event = WriteRejected e")
    case True
    have "SubscriptionRemove \<in> set (downloadCalls (downloadStep totalTicks event st))"
      using True by (simp add: downloadStep_def downloadWriteFailed_def)
    then show ?thesis by (simp add: downloadSteps_keeps_removal)
  next
    case False
    with Cons show ?thesis by simp
  qed
qed

lemma downloadSteps_stays_settled:
  "downloadPromise st \<noteq> Pending \<Longrightarrow>
     downloadPromise (downloadSteps totalTicks events st) \<noteq> Pending"
proof (induction events arbitrary: st)
  case Nil
  then show ?case by simp
next
  case (Cons event events)
  have "downloadPromise (downloadStep totalTicks event st) \<noteq> Pending"
  proof (cases event)
    case (Notification m)
    with Cons.prems show ?thesis
      by (cases m)
         (auto simp add: downloadStep_def downloadMonitorCallback_def reject_def resolve_def
            Let_def split: option.splits promise.splits)
  next
    case WriteResolved
    with Cons.prems show ?thesis by (simp add: downloadStep_def)
  next
    case (WriteRejected e)
    with Cons.prems show ?thesis
      by (simp add: downloadStep_def downloadWriteFailed_def reject_def split: promise.splits)
  qed
  then show ?case using Cons.IH by simp
qed

lemma downloadSteps_write_settles:
  "WriteRejected e \<in> set events \<Longrightarrow>
     downloadPromise (downloadSteps totalTicks events st) \<noteq> Pending"
proof (induction events arbitrary: st)
  case Nil
  then show ?case by simp
next
  case (Cons event events)
  show ?case
  proof (cases "event = WriteRejected e")
    case True
    have "downloadPromise (downloadStep totalTicks event st) \<noteq> Pending"
      using True
      by (simp add: downloadStep_def downloadWriteFailed_def reject_def split: promise.splits)
    then show ?thesis by (simp add: downloadSteps_stays_settled)
  next
    case False
    with Cons show ?thesis by simp
  qed
qed

lemma drainStep_keeps_release:
  assumes "drainPromise st = Pending \<longrightarrow> subscriptionsMonitor st"
    and "drainPromise st = Resolved () \<longrightarrow> SubscriptionRemove \<in> set (drainCalls st)"
  shows "(drainPromise (drainStep tickTimeout timed st) = Pending \<longrightarrow>
            subscriptionsMonitor (drainStep tickTimeout timed st)) \<and>
         (drainPromise (drainStep tickTimeout timed st) = Resolved () \<longrightarrow>
            SubscriptionRemove \<in> set (drainCalls (drainStep tickTimeout timed st)))"
proof (cases "snd timed")
  case (BlockRuns block)
  with assms show ?thesis
    by (simp add: drainStep_def Let_def split: option.splits)
next
  case CallbackRuns
  with assms show ?thesis
    by (auto simp add: drainStep_def Let_def idleTimeoutCallback_def clearSubscriptions_def
          drainSettle_def split: list.splits)
next
  case (Notified event)
  show ?thesis
  proof (cases event)
    case (MonitorError e)
    with assms Notified show ?thesis
      by (auto simp add: drainStep_def Let_def drainMonitorCallback_def clearSubscriptions_def
            drainSettle_def split: option.splits)
  next
    case (Characteristic v)
    with assms Notified show ?thesis
      by (auto simp add: drainStep_def Let_def drainMonitorCallback_def startIdleTimeout_def
            Background_setTimeout_def split: option.splits)
  qed
qed

lemma drainSteps_keeps_release:
  assumes "drainPromise st = Pending \<longrightarrow> subscriptionsMonitor st"
    and "drainPromise st = Resolved () \<longrightarrow> SubscriptionRemove \<in> set (drainCalls st)"
  shows "drainPromise (drainSteps tickTimeout steps st) = Resolved () \<longrightarrow>
           SubscriptionRemove \<in> set (drainCalls (drainSteps tickTimeout steps st))"
  using assms
proof (induction steps arbitrary: st)
  case Nil
  then show ?case by simp
next
  case (Cons timed steps)
  from drainStep_keeps_release [OF Cons.prems, of tickTimeout timed]
  have "drainPromise (drainStep tickTimeout timed st) = Pending \<longrightarrow>
          subscriptionsMonitor (drainStep tickTimeout timed st)"
    and "drainPromise (drainStep tickTimeout timed st) = Resolved () \<longrightarrow>
          SubscriptionRemove \<in> set (drainCalls (drainStep tickTimeout timed st))"
    by simp_all
  then show ?case using Cons.IH by simp
qed

lemma monitor_error_cancels_timer:
  "subscriptionsTimeout (drainMonitorCallback tickTimeout (MonitorError e) st) = None \<and>
   drainCalls (drainMonitorCallback tickTimeout (MonitorError e) st) = drainCalls st \<and>
   (drainPromise st = Pending \<longrightarrow>
      drainPromise (drainMonitorCallback tickTimeout (MonitorError e) st) = Rejected e) \<and>
   (subscriptionsTimeout st = Some timeoutId \<and>
    pendingTimers (drainWorld st) (toString timeoutId) = Some block \<longrightarrow>
      pendingTimers (drainWorld (drainMonitorCallback tickTimeout (MonitorError e) st))
        (toString timeoutId) = None \<and>
      block \<notin> handle ` set (mainQueue
        (drainWorld (drainMonitorCallback tickTimeout (MonitorError e) st))))"
  by (auto simp add: drainMonitorCallback_def clearSubscriptions_def drainSettle_def
        Background_clearTimeout_def clearTimeout_def Let_def split: option.splits)

text \<open>
  Claim C5, as amended. The claim says that on every terminal path of a tick exchange,
  including a transport error on the notification channel, the subscription and the idle
  timer are released before the promise settles. On a monitor error the download only
  rejects, and the drain empties its \<open>monitor\<close> slot before clearing, so neither
  removes the subscription. What holds: a download whose promise is resolved has called
  \<open>remove\<close> on its subscription; a download whose write fails has called it too and
  its promise is settled; a drain whose promise is resolved, after any steps from any module
  state, has called \<open>remove\<close> on its subscription; and the monitor callback of a
  drain, given an error in any state, empties the timeout slot, cancels the timer that the
  slot held (its registry entry and its block are gone), makes no call on the device and
  rejects a pending promise with the error.
\<close>

theorem sessions_release_on_settling:
  "(downloadPromise (downloadRun totalTicks events) = Resolved x \<longrightarrow>
      SubscriptionRemove \<in> set (downloadCalls (downloadRun totalTicks events))) \<and>
   (1 \<le> totalTicks \<and> totalTicks \<le> 255 \<and> WriteRejected e \<in> set events \<longrightarrow>
      downloadPromise (downloadRun totalTicks events) \<noteq> Pending \<and>
      SubscriptionRemove \<in> set (downloadCalls (downloadRun totalTicks events))) \<and>
   (drainPromise (drainSteps tickTimeout steps (waitForPendingTicks tickTimeout w)) =
      Resolved () \<longrightarrow>
      SubscriptionRemove \<in>
        set (drainCalls (drainSteps tickTimeout steps (waitForPendingTicks tickTimeout w)))) \<and>
   subscriptionsTimeout (drainMonitorCallback tickTimeout (MonitorError e) st) = None \<and>
   drainCalls (drainMonitorCallback tickTimeout (MonitorError e) st) = drainCalls st \<and>
   (drainPromise st = Pending \<longrightarrow>
      drainPromise (drainMonitorCallback tickTimeout (MonitorError e) st) = Rejected e) \<and>
   (subscriptionsTimeout st = Some timeoutId \<and>
    pendingTimers (drainWorld st) (toString timeoutId) = Some block \<longrightarrow>
      pendingTimers (drainWorld (drainMonitorCallback tickTimeout (MonitorError e) st))
        (toString timeoutId) = None \<and>
      block \<notin> handle ` set (mainQueue
        (drainWorld (drainMonitorCallback tickTimeout (MonitorError e) st))))"
proof -
  have resolved: "SubscriptionRemove \<in> set (downloadCalls (downloadRun totalTicks events))"
    if "downloadPromise (downloadRun totalTicks events) = Resolved x"
  proof (cases "downloadCalls (downloadTicks totalTicks) = []")
    case True
    then show ?thesis using that by (simp add: downloadRun_def downloadTicks_def split: if_splits)
  next
    case False
    have "\<forall>x. downloadPromise (downloadTicks totalTicks) = Resolved x \<longrightarrow>
            SubscriptionRemove \<in> set (downloadCalls (downloadTicks totalTicks))"
      by (simp add: downloadTicks_def)
    from downloadSteps_resolved_removed [OF this, of totalTicks events] that False
    show ?thesis by (simp add: downloadRun_def)
  qed
  have failed: "downloadPromise (downloadRun totalTicks events) \<noteq> Pending \<and>
                SubscriptionRemove \<in> set (downloadCalls (downloadRun totalTicks events))"
    if "1 \<le> totalTicks \<and> totalTicks \<le> 255 \<and> WriteRejected e \<in> set events"
  proof -
    from that have run: "downloadRun totalTicks events =
                           downloadSteps totalTicks events (downloadTicks totalTicks)"
      by (simp add: downloadRun_def downloadTicks_def)
    from that have w: "WriteRejected e \<in> set events" by simp
    show ?thesis
      using downloadSteps_write_failed [OF w, of totalTicks "downloadTicks totalTicks"]
        downloadSteps_write_settles [OF w, of totalTicks "downloadTicks totalTicks"]
      by (simp add: run)
  qed
  let ?st0 = "waitForPendingTicks tickTimeout w"
  have start: "drainPromise ?st0 = Pending \<longrightarrow> subscriptionsMonitor ?st0"
    "drainPromise ?st0 = Resolved () \<longrightarrow> SubscriptionRemove \<in> set (drainCalls ?st0)"
    by (simp_all add: waitForPendingTicks_def startIdleTimeout_def Background_setTimeout_def
          Let_def)
  note drained = drainSteps_keeps_release [OF start, of tickTimeout steps]
  note onError = monitor_error_cancels_timer [of tickTimeout e st timeoutId block]
  show ?thesis
    using resolved failed drained onError by blast
qed

theorem sessions_release_on_settling_witness:
  "downloadPromise (downloadRun 1 [Notification (Characteristic (Some [5, 0, 0, 0]))]) = Resolved 1 \<and>
   SubscriptionRemove \<in>
     set (downloadCalls (downloadRun 1 [Notification (Characteristic (Some [5, 0, 0, 0]))])) \<and>
   SubscriptionRemove \<in> set (downloadCalls (downloadRun 2 [WriteRejected (BleError 3)])) \<and>
   drainPromise (drainSteps 10000 [(10000, BlockRuns 0), (10000, CallbackRuns)]
      (waitForPendingTicks 10000 init)) = Resolved () \<and>
   SubscriptionRemove \<in> set (drainCalls
     (drainSteps 10000 [(10000, BlockRuns 0), (10000, CallbackRuns)]
        (waitForPendingTicks 10000 init))) \<and>
   drainPromise (drainMonitorCallback 10000 (MonitorError (BleError 3))
      (waitForPendingTicks 10000 init)) = Rejected (BleError 3) \<and>
   pendingTimers (drainWorld (drainMonitorCallback 10000 (MonitorError (BleError 3))
      (waitForPendingTicks 10000 init))) (toString 0) = None \<and>
   0 \<notin> handle ` set (mainQueue (drainWorld
      (drainMonitorCallback 10000 (MonitorError (BleError 3))
         (waitForPendingTicks 10000 init))))"
proof -
  have one: "downloadPromise (downloadRun 1 [Notification (Characteristic (Some [5, 0, 0, 0]))]) =
               Resolved 1"
    by (simp add: downloadRun_def downloadTicks_def downloadStep_def downloadMonitorCallback_def
          monitoring_def resolve_def)
  have two: "drainPromise (drainSteps 10000 [(10000, BlockRuns 0), (10000, CallbackRuns)]
               (waitForPendingTicks 10000 init)) = Resolved ()"
    by (simp add: waitForPendingTicks_def startIdleTimeout_def Background_setTimeout_def
          setTimeout_def runBlock_def drainStep_def idleTimeoutCallback_def
          clearSubscriptions_def drainSettle_def init_def Let_def)
  have three: "subscriptionsTimeout (waitForPendingTicks 10000 init) = Some 0"
    "pendingTimers (drainWorld (waitForPendingTicks 10000 init)) (toString 0) = Some 0"
    "drainPromise (waitForPendingTicks 10000 init) = Pending"
    by (simp_all add: waitForPendingTicks_def startIdleTimeout_def Background_setTimeout_def
          setTimeout_def init_def Let_def)
  show ?thesis
    using one two three
      sessions_release_on_settling
        [of 1 "[Notification (Characteristic (Some [5, 0, 0, 0]))]" 1 "BleError 3" 10000
            "[(10000, BlockRuns 0), (10000, CallbackRuns)]" init
            "waitForPendingTicks 10000 init" 0 0]
      sessions_release_on_settling
        [of 2 "[WriteRejected (BleError 3)]" 1 "BleError 3" 10000
            "[(10000, BlockRuns 0), (10000, CallbackRuns)]" init
            "waitForPendingTicks 10000 init" 0 0]
    by simp
qed

theorem monitor_error_keeps_subscription:
  "downloadPromise (downloadRun 2 [Notification (MonitorError (BleError 3))]) =
     Rejected (BleError 3) \<and>
   downloadCalls (downloadRun 2 [Notification (MonitorError (BleError 3))]) =
     [MonitorCharacteristicForService serviceUUID rxUUID,
      WriteCharacteristicWithoutResponseForService serviceUUID txUUID [2]] \<and>
   SubscriptionRemove \<notin>
     set (downloadCalls (downloadRun 2 [Notification (MonitorError (BleError 3))])) \<and>
   monitoring (downloadCalls (downloadRun 2 [Notification (MonitorError (BleError 3))]))"
  by (simp add: downloadRun_def downloadTicks_def downloadStep_def downloadMonitorCallback_def
        monitoring_def reject_def)

section \<open>Properties of the connection sequence\<close>

lemma connectToDevice_never_scans:
  "StartDeviceScan uuids \<notin> set (snd (connectToDevice device timeout a))"
  by (simp add: connectToDevice_def Let_def split: promise.splits)

lemma scanLoop_keeps_start:
  "StartDeviceScan uuids \<in> set (scanCalls st) \<Longrightarrow>
     StartDeviceScan uuids \<in> set (scanCalls (scanLoop timeout results st))"
proof (induction results arbitrary: st)
  case Nil
  then show ?case
    by (simp add: scanTimeoutCallback_def scanClearSubscriptions_def Let_def
          split: option.splits)
next
  case (Cons result results)
  have "StartDeviceScan uuids \<in> set (scanCalls (scanCallback result st))"
    using Cons.prems
    by (cases result)
       (simp add: scanCallback_def scanClearSubscriptions_def Let_def split: option.splits)
  then show ?case using Cons.IH Cons.prems by simp
qed

lemma scanDevice_starts_scan:
  "StartDeviceScan [serviceUUID] \<in> set (scanCalls (scanDevice timeout results w))"
  unfolding scanDevice_def
  by (rule scanLoop_keeps_start) (simp add: Background_setTimeout_def Let_def)

text \<open>
  Claim C9. When the query for connected devices returns a non-empty list,
  \<open>establishConnection\<close> starts no scan and starts no timer; once the radio is powered
  on it goes on with the first device of the list, so its result and its calls are those of
  \<open>connectToDevice\<close> on that device after the state listener and the query. A scan is
  started only when the query returned the empty list, and then it is started.
\<close>

theorem connected_device_skips_scan:
  "(connectedDevicesAnswer a = Resolved devices \<and> devices \<noteq> [] \<longrightarrow>
      (\<forall>uuids. StartDeviceScan uuids \<notin> set (fst (snd (establishConnection a w)))) \<and>
      snd (snd (establishConnection a w)) = w) \<and>
   (connectedDevicesAnswer a = Resolved devices \<and> devices \<noteq> [] \<and>
    PoweredOn \<in> set (stateChanges a) \<longrightarrow>
      fst (establishConnection a w) = fst (connectToDevice (hd devices) 5000 a) \<and>
      fst (snd (establishConnection a w)) =
        [OnStateChange, StateSubscriptionRemove, ConnectedDevices [serviceUUID]] @
        snd (connectToDevice (hd devices) 5000 a)) \<and>
   (StartDeviceScan uuids \<in> set (fst (snd (establishConnection a w))) \<longrightarrow>
      connectedDevicesAnswer a = Resolved []) \<and>
   (connectedDevicesAnswer a = Resolved [] \<and> PoweredOn \<in> set (stateChanges a) \<longrightarrow>
      StartDeviceScan [serviceUUID] \<in> set (fst (snd (establishConnection a w))))"
proof -
  have skip: "(\<forall>uuids. StartDeviceScan uuids \<notin> set (fst (snd (establishConnection a w)))) \<and>
              snd (snd (establishConnection a w)) = w"
    if "connectedDevicesAnswer a = Resolved ds" and "ds \<noteq> []" for ds
    using that connectToDevice_never_scans
    by (simp add: establishConnection_def waitForBLEState_def Let_def
          split: promise.splits)
  have direct: "fst (establishConnection a w) = fst (connectToDevice (hd devices) 5000 a) \<and>
      fst (snd (establishConnection a w)) =
        [OnStateChange, StateSubscriptionRemove, ConnectedDevices [serviceUUID]] @
        snd (connectToDevice (hd devices) 5000 a)"
    if "connectedDevicesAnswer a = Resolved devices" and "devices \<noteq> []"
      and "PoweredOn \<in> set (stateChanges a)"
    using that
    by (simp add: establishConnection_def waitForBLEState_def Let_def hd_conv_nth)
  have only: "connectedDevicesAnswer a = Resolved []"
    if scanned: "StartDeviceScan uuids \<in> set (fst (snd (establishConnection a w)))"
  proof (cases "connectedDevicesAnswer a")
    case Pending
    with scanned show ?thesis
      by (simp add: establishConnection_def waitForBLEState_def Let_def split: if_splits)
  next
    case (Rejected e)
    with scanned show ?thesis
      by (simp add: establishConnection_def waitForBLEState_def Let_def split: if_splits)
  next
    case (Resolved ds)
    show ?thesis
    proof (cases "ds = []")
      case True
      with Resolved show ?thesis by simp
    next
      case False
      with skip [OF Resolved False] scanned show ?thesis by blast
    qed
  qed
  have scans: "StartDeviceScan [serviceUUID] \<in> set (fst (snd (establishConnection a w)))"
    if "connectedDevicesAnswer a = Resolved []" and "PoweredOn \<in> set (stateChanges a)"
    using that scanDevice_starts_scan [of 5000 "scanResults a" w]
    by (simp add: establishConnection_def waitForBLEState_def Let_def split: promise.splits)
  show ?thesis
    using skip direct only scans by blast
qed

theorem connected_device_skips_scan_witness:
  "StartDeviceScan [serviceUUID] \<notin> set (fst (snd (establishConnection
      \<lparr> stateChanges = [PoweredOff, PoweredOn],
        connectedDevicesAnswer = Resolved [Device ''b'' None],
        scanResults = [ScanResult None (Some (Device ''a'' (Some [serviceUUID])))],
        isConnectedAnswer = Resolved True, connectAnswer = Resolved (),
        discoverAnswer = Resolved () \<rparr> init))) \<and>
   fst (establishConnection
      \<lparr> stateChanges = [PoweredOff, PoweredOn],
        connectedDevicesAnswer = Resolved [Device ''b'' None],
        scanResults = [ScanResult None (Some (Device ''a'' (Some [serviceUUID])))],
        isConnectedAnswer = Resolved True, connectAnswer = Resolved (),
        discoverAnswer = Resolved () \<rparr> init) = Resolved (Device ''b'' None) \<and>
   fst (snd (establishConnection
      \<lparr> stateChanges = [PoweredOff, PoweredOn],
        connectedDevicesAnswer = Resolved [Device ''b'' None],
        scanResults = [ScanResult None (Some (Device ''a'' (Some [serviceUUID])))],
        isConnectedAnswer = Resolved True, connectAnswer = Resolved (),
        discoverAnswer = Resolved () \<rparr> init)) =
     [OnStateChange, StateSubscriptionRemove, ConnectedDevices [serviceUUID],
      OnDisconnected (Device ''b'' None), IsConnected (Device ''b'' None),
      DiscoverAllServicesAndCharacteristics (Device ''b'' None)] \<and>
   StartDeviceScan [serviceUUID] \<in> set (fst (snd (establishConnection
      \<lparr> stateChanges = [PoweredOff, PoweredOn],
        connectedDevicesAnswer = Resolved [],
        scanResults = [ScanResult None (Some (Device ''a'' (Some [serviceUUID])))],
        isConnectedAnswer = Resolved True, connectAnswer = Resolved (),
        discoverAnswer = Resolved () \<rparr> init)))"
  using connected_device_skips_scan
    [of "\<lparr> stateChanges = [PoweredOff, PoweredOn],
        connectedDevicesAnswer = Resolved [Device ''b'' None],
        scanResults = [ScanResult None (Some (Device ''a'' (Some [serviceUUID])))],
        isConnectedAnswer = Resolved True, connectAnswer = Resolved (),
        discoverAnswer = Resolved () \<rparr>" "[Device ''b'' None]" init "[serviceUUID]"]
    connected_device_skips_scan
    [of "\<lparr> stateChanges = [PoweredOff, PoweredOn],
        connectedDevicesAnswer = Resolved [],
        scanResults = [ScanResult None (Some (Device ''a'' (Some [serviceUUID])))],
        isConnectedAnswer = Resolved True, connectAnswer = Resolved (),
        discoverAnswer = Resolved () \<rparr>" "[Device ''b'' None]" init "[serviceUUID]"]
  by (simp add: connectToDevice_def)

end
